theory Spec2Isabelle
  imports Main "HOL-Library.Word" "HOL-Library.AList"
begin

section \<open>JavaScript values and strings\<close>

text \<open>
  Payloads, data buckets and internal-state blobs are untyped (\<open>any\<close>) in the source.
  They are modelled by a small universe of JSON-like values. An object is the list of its
  own enumerable properties in insertion order; numbers are kept integral, since only
  their truthiness is ever inspected.
\<close>

datatype jsval =
    Undefined
  | Null
  | Bool bool
  | Num int
  | Str string
  | Arr "jsval list"
  | Obj "(string \<times> jsval) list"

text \<open>JavaScript's \<open>ToBoolean\<close>, as used by \<open>if (v)\<close>, \<open>v && e\<close> and \<open>filter(Boolean)\<close>.\<close>

fun truthy :: "jsval \<Rightarrow> bool" where
  "truthy Undefined = False"
| "truthy Null = False"
| "truthy (Bool b) = b"
| "truthy (Num n) = (n \<noteq> 0)"
| "truthy (Str s) = (s \<noteq> [])"
| "truthy (Arr xs) = True"
| "truthy (Obj kvs) = True"

text \<open>\<open>Object.keys(v).length\<close> for a value that is neither \<open>undefined\<close> nor \<open>null\<close>
  (the source guards the call with \<open>internalState &&\<close>).\<close>

fun keys_length :: "jsval \<Rightarrow> nat" where
  "keys_length (Obj kvs) = length kvs"
| "keys_length (Arr xs) = length xs"
| "keys_length (Str s) = length s"
| "keys_length v = 0"

text \<open>\<open>Object.entries(v)\<close> of a mapping: the properties of an object, nothing for the rest.\<close>

fun entries :: "jsval \<Rightarrow> (string \<times> jsval) list" where
  "entries (Obj kvs) = kvs"
| "entries v = []"

text \<open>Property read \<open>o.k\<close> on a property list: \<open>undefined\<close> when the key is absent.\<close>

definition js_prop :: "(string \<times> jsval) list \<Rightarrow> string \<Rightarrow> jsval" where
  "js_prop kvs k = (case map_of kvs k of None \<Rightarrow> Undefined | Some v \<Rightarrow> v)"

text \<open>
  The ticker input is a JavaScript string: a sequence of UTF-16 code units.
  \<open>String.prototype.trim\<close> strips WhiteSpace and LineTerminator code points, all of which
  are single code units.
\<close>

type_synonym code_unit = "16 word"
type_synonym js_string = "code_unit list"

definition utf16 :: "string \<Rightarrow> js_string" where
  "utf16 s = map (\<lambda>c. of_nat (of_char c)) s"

definition comma :: code_unit where
  "comma = 0x2C"

definition js_whitespace :: "code_unit \<Rightarrow> bool" where
  "js_whitespace c =
     (c = 0x09 \<or> c = 0x0A \<or> c = 0x0B \<or> c = 0x0C \<or> c = 0x0D \<or> c = 0x20 \<or> c = 0xA0 \<or>
      c = 0x1680 \<or> (0x2000 \<le> c \<and> c \<le> 0x200A) \<or> c = 0x2028 \<or> c = 0x2029 \<or>
      c = 0x202F \<or> c = 0x205F \<or> c = 0x3000 \<or> c = 0xFEFF)"

text \<open>\<open>s.trim()\<close>\<close>

definition js_trim :: "js_string \<Rightarrow> js_string" where
  "js_trim s = rev (dropWhile js_whitespace (rev (dropWhile js_whitespace s)))"

text \<open>\<open>s.split(',')\<close>: the segments between commas; the empty string gives one empty
  segment, and adjacent commas give empty segments.\<close>

fun js_split :: "js_string \<Rightarrow> js_string list" where
  "js_split [] = [[]]"
| "js_split (c # cs) =
     (if c = comma then [] # js_split cs
      else (case js_split cs of seg # segs \<Rightarrow> (c # seg) # segs | [] \<Rightarrow> [[c]]))"

text \<open>\<open>segs.join(',')\<close>, the inverse used to characterise \<open>js_split\<close>.\<close>

fun js_join :: "js_string list \<Rightarrow> js_string" where
  "js_join [] = []"
| "js_join [seg] = seg"
| "js_join (seg # segs) = seg @ comma # js_join segs"

section \<open>Data model\<close>

datatype node_status = IDLE | IN_PROGRESS | COMPLETE | ERROR

text \<open>A graph node: its id, its type tag, its data bucket, and its remaining properties
  (position, size, ...), which the code copies unread.\<close>

record node =
  nid :: string
  ntype :: string
  ndata :: "(string \<times> jsval) list"
  nother :: "(string \<times> jsval) list"

text \<open>The persisted flow record \<open>{id, name, description, nodes, edges, data}\<close>. An absent
  \<open>nodes\<close> array is the empty list and an absent \<open>data\<close> bucket the empty property list:
  the source guards both (\<open>if (flow.nodes)\<close>, \<open>flow.data?.\<close>) and does nothing for them.\<close>

record flow =
  fid :: int
  fname :: string
  fdescription :: "string option"
  fnodes :: "node list"
  fedges :: "jsval list"
  fdata :: "(string \<times> jsval) list"

text \<open>The request \<open>{tickers, selected_agents}\<close> handed to \<open>api.runHedgeFund\<close>, and a
  server-sent event, of which the handler reads the \<open>type\<close> only.\<close>

record run_request =
  req_tickers :: "js_string list"
  selected_agents :: "string list"

record event =
  ev_type :: string
  ev_payload :: jsval

text \<open>One stream opened at the run-request collaborator. The handle returned to the
  caller is the stream's index.\<close>

record stream =
  request :: run_request
  live :: bool

text \<open>Effectful helper calls, in the order they were made.\<close>

datatype call =
    CSetNodes "node list"
  | CSaveCurrentFlow
  | CUpdateFlow int
  | CSetCurrentFlowId string
  | CClearAllNodeStates
  | CResetAllNodes
  | CLoadFlow int
  | CSetNodeInternalState string jsval
  | CImportNodeContextData jsval

text \<open>
  The workspace: the live graph of the canvas, the Node Status Store, the Node Context
  Store, the per-node internal-state layer with its flow scope, the state of the one
  \<open>StartNode\<close> component (\<open>id\<close> prop, \<open>tickers\<close>, \<open>isProcessing\<close>, \<open>abortControllerRef\<close>),
  the streams of the run-request collaborator, and the call log.
\<close>

record world =
  graph :: "node list"
  statuses :: "string \<rightharpoonup> node_status"
  nodeContext :: "(string \<times> jsval) list"
  currentFlowId :: "string option"
  internalStates :: "(string option \<times> string) \<rightharpoonup> jsval"
  startId :: string
  tickers :: js_string
  isProcessing :: bool
  abortControllerRef :: "nat option"
  streams :: "stream list"
  calls :: "call list"

section \<open>Node Status Store\<close>

text \<open>Modelled from the spec: \<open>contexts/node-status-context\<close> is not among the sources.
  \<open>setStatus\<close> is an unconditional overwrite and \<open>resetAll\<close> sets every currently tracked
  node id to \<open>IDLE\<close>.\<close>

definition updateNodeStatus :: "string \<Rightarrow> node_status \<Rightarrow> world \<Rightarrow> world" where
  "updateNodeStatus k st s = s\<lparr>statuses := (statuses s)(k \<mapsto> st)\<rparr>"

definition resetAllStatuses :: "world \<Rightarrow> world" where
  "resetAllStatuses s = s\<lparr>statuses := (\<lambda>k. map_option (\<lambda>_. IDLE) (statuses s k))\<rparr>"

text \<open>The read in \<open>StartNode\<close>: \<open>nodeStates[id] || 'IDLE'\<close>.\<close>

definition getStatus :: "world \<Rightarrow> string \<Rightarrow> node_status" where
  "getStatus s k = (case statuses s k of None \<Rightarrow> IDLE | Some st \<Rightarrow> st)"

section \<open>Run-request collaborator\<close>

text \<open>Modelled from the spec: \<open>services/api\<close> is not among the sources. The collaborator
  accepts a request and an event handler, returns a cancellation handle, and invokes the
  handler with events until \<open>complete\<close>, \<open>error\<close> or cancellation. The handle closes the
  stream without throwing; closing twice is harmless.\<close>

definition runHedgeFund :: "run_request \<Rightarrow> world \<Rightarrow> nat \<times> world" where
  "runHedgeFund req s =
     (length (streams s), s\<lparr>streams := streams s @ [\<lparr>request = req, live = True\<rparr>]\<rparr>)"

definition close_stream :: "nat \<Rightarrow> world \<Rightarrow> world" where
  "close_stream h s =
     (if h < length (streams s)
      then s\<lparr>streams := (streams s)[h := (streams s ! h)\<lparr>live := False\<rparr>]\<rparr>
      else s)"

definition is_live :: "world \<Rightarrow> nat \<Rightarrow> bool" where
  "is_live s h = (h < length (streams s) \<and> live (streams s ! h))"

section \<open>The StartNode component\<close>

definition setIsProcessing :: "bool \<Rightarrow> world \<Rightarrow> world" where
  "setIsProcessing b s = s\<lparr>isProcessing := b\<rparr>"

definition handleTickersChange :: "js_string \<Rightarrow> world \<Rightarrow> world" where
  "handleTickersChange v s = s\<lparr>tickers := v\<rparr>"

text \<open>The event handler that \<open>handlePlay\<close> passes to \<open>api.runHedgeFund\<close>; it closes over
  the component's \<open>id\<close>.\<close>

definition on_event :: "event \<Rightarrow> world \<Rightarrow> world" where
  "on_event ev s =
     (if ev_type ev = ''complete'' then updateNodeStatus (startId s) COMPLETE (setIsProcessing False s)
      else if ev_type ev = ''error'' then updateNodeStatus (startId s) ERROR (setIsProcessing False s)
      else s)"

text \<open>Invoking \<open>abortControllerRef.current\<close> when it is set; the ref keeps its value.\<close>

definition abort_current :: "world \<Rightarrow> world" where
  "abort_current s = (case abortControllerRef s of None \<Rightarrow> s | Some h \<Rightarrow> close_stream h s)"

definition tickerList :: "js_string \<Rightarrow> js_string list" where
  "tickerList t = map js_trim (js_split t)"

text \<open>\<open>getNodes().map(node => node.id).filter(Boolean)\<close>: an empty id is falsy.\<close>

definition selectedAgents :: "node list \<Rightarrow> string list" where
  "selectedAgents ns = filter (\<lambda>i. i \<noteq> []) (map nid ns)"

definition handlePlay :: "world \<Rightarrow> world" where
  "handlePlay s =
     (let s1 = setIsProcessing True s;
          s2 = resetAllStatuses s1;
          s3 = updateNodeStatus (startId s2) IN_PROGRESS s2;
          s4 = abort_current s3;
          (h, s5) = runHedgeFund
             \<lparr>req_tickers = tickerList (tickers s4), selected_agents = selectedAgents (graph s4)\<rparr> s4
      in s5\<lparr>abortControllerRef := Some h\<rparr>)"

text \<open>The play button is rendered with \<open>disabled={isProcessing || !tickers.trim()}\<close>; a
  click on a disabled button does not reach \<open>onClick\<close>.\<close>

definition play_disabled :: "world \<Rightarrow> bool" where
  "play_disabled s = (isProcessing s \<or> js_trim (tickers s) = [])"

definition click_play :: "world \<Rightarrow> world" where
  "click_play s = (if play_disabled s then s else handlePlay s)"

text \<open>Modelled from the spec: \<open>services/api\<close> is not among the sources. An event of stream
  \<open>h\<close> arrives at the collaborator, which invokes the handler until \<open>complete\<close>, \<open>error\<close> or
  cancellation: the handler runs only while the stream is live, and a \<open>complete\<close> or \<open>error\<close>
  event ends the stream. The test of liveness is the collaborator's; the handler of
  \<open>handlePlay\<close> has none.\<close>

definition deliver :: "nat \<Rightarrow> event \<Rightarrow> world \<Rightarrow> world" where
  "deliver h ev s =
     (if is_live s h
      then (let s' = on_event ev s
            in if ev_type ev = ''complete'' \<or> ev_type ev = ''error'' then close_stream h s' else s')
      else s)"

text \<open>What can happen to the component: the run is started by a direct call of
  \<open>handlePlay\<close> or by a click, the input is edited, the component unmounts (its cleanup
  invokes the handle), an event of some stream arrives at the collaborator, or an event
  of some stream that was already queued for the handler is handed to it. The handler is
  the closure of lines 67-77: it applies whatever event it is handed, of whichever
  stream, live or not.\<close>

datatype action =
    Play
  | Click
  | TypeTickers js_string
  | Unmount
  | Deliver nat event
  | Queued nat event

fun step :: "action \<Rightarrow> world \<Rightarrow> world" where
  "step Play s = handlePlay s"
| "step Click s = click_play s"
| "step (TypeTickers v) s = handleTickersChange v s"
| "step Unmount s = abort_current s"
| "step (Deliver h ev) s = deliver h ev s"
| "step (Queued h ev) s = on_event ev s"

fun exec :: "action list \<Rightarrow> world \<Rightarrow> world" where
  "exec [] s = s"
| "exec (a # as) s = exec as (step a s)"

section \<open>Node Context Store\<close>

text \<open>Modelled from the spec: \<open>contexts/node-context\<close> is not among the sources.
  \<open>exportAll\<close> is a snapshot of the mapping from node id to payload, \<open>importAll\<close> replaces
  the store's full contents by the given mapping, and \<open>resetAll\<close> clears every entry.\<close>

definition exportNodeContextData :: "world \<Rightarrow> (string \<times> jsval) list" where
  "exportNodeContextData s = nodeContext s"

definition importNodeContextData :: "jsval \<Rightarrow> world \<Rightarrow> world" where
  "importNodeContextData m s =
     s\<lparr>nodeContext := entries m, calls := calls s @ [CImportNodeContextData m]\<rparr>"

definition resetAllNodes :: "world \<Rightarrow> world" where
  "resetAllNodes s = s\<lparr>nodeContext := [], calls := calls s @ [CResetAllNodes]\<rparr>"

section \<open>Per-node internal state\<close>

text \<open>Modelled from the spec: \<open>hooks/use-node-state\<close> is not among the sources. Internal
  state is kept per node id under the active flow-scope identity; reads and writes go
  to the active scope, and clearing removes all per-node internal state.\<close>

definition setNodeStateFlowId :: "string \<Rightarrow> world \<Rightarrow> world" where
  "setNodeStateFlowId f s =
     s\<lparr>currentFlowId := Some f, calls := calls s @ [CSetCurrentFlowId f]\<rparr>"

definition clearAllNodeStates :: "world \<Rightarrow> world" where
  "clearAllNodeStates s =
     s\<lparr>internalStates := Map.empty, calls := calls s @ [CClearAllNodeStates]\<rparr>"

definition getNodeInternalState :: "world \<Rightarrow> string \<Rightarrow> jsval" where
  "getNodeInternalState s k =
     (case internalStates s (currentFlowId s, k) of None \<Rightarrow> Undefined | Some v \<Rightarrow> v)"

definition setNodeInternalState :: "string \<Rightarrow> jsval \<Rightarrow> world \<Rightarrow> world" where
  "setNodeInternalState k v s =
     s\<lparr>internalStates := (internalStates s)((currentFlowId s, k) \<mapsto> v),
       calls := calls s @ [CSetNodeInternalState k v]\<rparr>"

section \<open>Programs that may throw\<close>

datatype js_error = JsError string

text \<open>A step of an \<open>async\<close> function: it ends with a value or a thrown error (a rejected
  promise), and leaves a new workspace either way. Awaited calls run to their end before
  the next step, as in the single-threaded model of the spec.\<close>

type_synonym 'a prog = "world \<Rightarrow> (js_error + 'a) \<times> world"

definition ret :: "'a \<Rightarrow> 'a prog" where
  "ret v = (\<lambda>s. (Inr v, s))"

definition throw :: "js_error \<Rightarrow> 'a prog" where
  "throw e = (\<lambda>s. (Inl e, s))"

definition andThen :: "'a prog \<Rightarrow> ('a \<Rightarrow> 'b prog) \<Rightarrow> 'b prog" where
  "andThen m f = (\<lambda>s. case m s of (Inl e, s') \<Rightarrow> (Inl e, s') | (Inr v, s') \<Rightarrow> f v s')"

text \<open>\<open>try { m } catch (e) { h e }\<close>\<close>

definition try_catch :: "'a prog \<Rightarrow> (js_error \<Rightarrow> 'a prog) \<Rightarrow> 'a prog" where
  "try_catch m h = (\<lambda>s. case m s of (Inl e, s') \<Rightarrow> h e s' | (Inr v, s') \<Rightarrow> (Inr v, s'))"

text \<open>\<open>try { m } finally { fin }\<close>: \<open>fin\<close> runs on both exits of \<open>m\<close>, and the outcome of
  \<open>m\<close> stands unless \<open>fin\<close> itself throws.\<close>

definition try_finally :: "'a prog \<Rightarrow> unit prog \<Rightarrow> 'a prog" where
  "try_finally m fin =
     (\<lambda>s. case m s of (r, s') \<Rightarrow>
        (case fin s' of (Inl e, s'') \<Rightarrow> (Inl e, s'') | (Inr u, s'') \<Rightarrow> (r, s'')))"

text \<open>A read of the workspace and a helper that only updates it.\<close>

definition rd :: "(world \<Rightarrow> 'a) \<Rightarrow> 'a prog" where
  "rd f = (\<lambda>s. (Inr (f s), s))"

definition eff :: "(world \<Rightarrow> world) \<Rightarrow> unit prog" where
  "eff f = (\<lambda>s. (Inr (), f s))"

section \<open>Canvas and persistence collaborators\<close>

text \<open>\<open>reactFlowInstance.getNodes()\<close> and \<open>reactFlowInstance.setNodes(ns)\<close>.\<close>

definition getNodes :: "world \<Rightarrow> node list" where
  "getNodes s = graph s"

definition setNodes :: "node list \<Rightarrow> world \<Rightarrow> world" where
  "setNodes ns s = s\<lparr>graph := ns, calls := calls s @ [CSetNodes ns]\<rparr>"

text \<open>Modelled from the spec: \<open>contexts/flow-context\<close> (\<open>saveCurrentFlow\<close>, \<open>loadFlow\<close>) and
  \<open>services/flow-service\<close> (\<open>updateFlow\<close>) are not among the sources, so their behaviour is
  a parameter. The base save reads the live graph and yields a saved flow, no flow, or
  an error; the update call yields a flow or an error; the base load handles the canvas
  state only: it leaves a graph and may throw.\<close>

record persistence =
  base_save :: "node list \<Rightarrow> string option \<Rightarrow> string option \<Rightarrow> js_error + flow option"
  update_flow :: "int \<Rightarrow> flow \<Rightarrow> js_error + flow"
  base_load :: "flow \<Rightarrow> node list \<Rightarrow> js_error option \<times> node list"

definition saveCurrentFlow ::
  "persistence \<Rightarrow> string option \<Rightarrow> string option \<Rightarrow> (flow option) prog" where
  "saveCurrentFlow env name description =
     (\<lambda>s. (base_save env (graph s) name description, s\<lparr>calls := calls s @ [CSaveCurrentFlow]\<rparr>))"

definition updateFlow :: "persistence \<Rightarrow> int \<Rightarrow> flow \<Rightarrow> flow prog" where
  "updateFlow env i f = (\<lambda>s. (update_flow env i f, s\<lparr>calls := calls s @ [CUpdateFlow i]\<rparr>))"

definition loadFlow :: "persistence \<Rightarrow> flow \<Rightarrow> unit prog" where
  "loadFlow env f =
     (\<lambda>s. case base_load env f (graph s) of
        (r, g) \<Rightarrow> ((case r of None \<Rightarrow> Inr () | Some e \<Rightarrow> Inl e),
                   s\<lparr>graph := g, calls := calls s @ [CLoadFlow (fid f)]\<rparr>))"

section \<open>Flow Persistence Coordinator\<close>

text \<open>\<open>n.toString()\<close> of an integral flow id: its decimal numeral, which is what JavaScript
  prints for every integer of magnitude below \<open>10^21\<close>. A flow id is a database id, far
  below that; the exponent notation of larger numbers is not modelled.\<close>

fun nat_digits :: "nat \<Rightarrow> string" where
  "nat_digits n =
     (if n < 10 then [char_of (48 + n)] else nat_digits (n div 10) @ [char_of (48 + n mod 10)])"

declare nat_digits.simps [simp del]

definition toString :: "int \<Rightarrow> string" where
  "toString i = (if i < 0 then CHR ''-'' # nat_digits (nat (- i)) else nat_digits (nat i))"

text \<open>The test \<open>internalState && Object.keys(internalState).length > 0\<close>.\<close>

definition has_state :: "jsval \<Rightarrow> bool" where
  "has_state v = (truthy v \<and> 0 < keys_length v)"

text \<open>One step of \<open>currentNodes.map(...)\<close>: the node with its data bucket spread, and
  \<open>internal_state\<close> set after it when there is state to save. A spread keeps every key
  the bucket already has.\<close>

definition enhance :: "world \<Rightarrow> node \<Rightarrow> node" where
  "enhance s n =
     (let internalState = getNodeInternalState s (nid n)
      in n\<lparr>ndata :=
           (if has_state internalState
            then AList.update ''internal_state'' internalState (ndata n)
            else ndata n)\<rparr>)"

definition nodesWithStates :: "world \<Rightarrow> node list \<Rightarrow> node list" where
  "nodesWithStates s currentNodes = map (enhance s) currentNodes"

text \<open>The record sent to \<open>flowService.updateFlow\<close>:
  \<open>{...savedFlow, data: {...savedFlow.data, nodeContextData}}\<close>.\<close>

definition withContext :: "flow \<Rightarrow> (string \<times> jsval) list \<Rightarrow> flow" where
  "withContext savedFlow nodeContextData =
     savedFlow\<lparr>fdata := AList.update ''nodeContextData'' (Obj nodeContextData) (fdata savedFlow)\<rparr>"

definition saveCurrentFlowWithCompleteState ::
  "persistence \<Rightarrow> string option \<Rightarrow> string option \<Rightarrow> (flow option) prog" where
  "saveCurrentFlowWithCompleteState env name description =
     try_catch
       (andThen (rd getNodes) (\<lambda>currentNodes.
        andThen (rd exportNodeContextData) (\<lambda>nodeContextData.
        andThen (rd (\<lambda>s. nodesWithStates s currentNodes)) (\<lambda>enhanced.
        andThen (eff (setNodes enhanced)) (\<lambda>_.
        try_finally
          (andThen (saveCurrentFlow env name description) (\<lambda>savedFlow.
             case savedFlow of
               Some sf \<Rightarrow>
                 andThen (updateFlow env (fid sf) (withContext sf nodeContextData))
                   (\<lambda>updatedFlow. ret (Some updatedFlow))
             | None \<Rightarrow> ret savedFlow))
          (eff (setNodes currentNodes)))))))
       (\<lambda>err. ret None)"

text \<open>\<open>flow.nodes.forEach(...)\<close>: a node whose data bucket has a truthy \<open>internal_state\<close>
  has it restored under its id.\<close>

fun restoreInternalStates :: "node list \<Rightarrow> world \<Rightarrow> world" where
  "restoreInternalStates [] s = s"
| "restoreInternalStates (n # ns) s =
     restoreInternalStates ns
       (if truthy (js_prop (ndata n) ''internal_state'')
        then setNodeInternalState (nid n) (js_prop (ndata n) ''internal_state'') s
        else s)"

definition restoreNodeContext :: "flow \<Rightarrow> world \<Rightarrow> world" where
  "restoreNodeContext f s =
     (if truthy (js_prop (fdata f) ''nodeContextData'')
      then importNodeContextData (js_prop (fdata f) ''nodeContextData'') s
      else s)"

definition loadFlowWithCompleteState :: "persistence \<Rightarrow> flow \<Rightarrow> unit prog" where
  "loadFlowWithCompleteState env f =
     try_catch
       (andThen (eff (setNodeStateFlowId (toString (fid f)))) (\<lambda>_.
        andThen (eff clearAllNodeStates) (\<lambda>_.
        andThen (eff resetAllNodes) (\<lambda>_.
        andThen (loadFlow env f) (\<lambda>_.
        andThen (eff (restoreInternalStates (fnodes f))) (\<lambda>_.
        eff (restoreNodeContext f)))))))
       (\<lambda>error. throw error)"

section \<open>Auxiliary notions for the statements\<close>




text \<open>The request of the stream opened last.\<close>

definition submitted :: "world \<Rightarrow> run_request" where
  "submitted s = request (last (streams s))"

text \<open>The calls of the restoration steps of a load, in order.\<close>

definition restore_calls :: "flow \<Rightarrow> call list" where
  "restore_calls f =
     map (\<lambda>n. CSetNodeInternalState (nid n) (js_prop (ndata n) ''internal_state''))
       (filter (\<lambda>n. truthy (js_prop (ndata n) ''internal_state'')) (fnodes f)) @
     (if truthy (js_prop (fdata f) ''nodeContextData'')
      then [CImportNodeContextData (js_prop (fdata f) ''nodeContextData'')]
      else [])"

text \<open>The first three steps of a load: the scope is set, the internal states and the
  Node Context Store are cleared.\<close>

definition load_prefix :: "flow \<Rightarrow> world \<Rightarrow> world" where
  "load_prefix f s = resetAllNodes (clearAllNodeStates (setNodeStateFlowId (toString (fid f)) s))"

text \<open>An input that is empty or holds whitespace only, and an action of the user interface
  that types no other input: the button, typing blanks, unmounting, or an event arriving
  or being handled.
  A direct call of \<open>handlePlay\<close> is not such an action; the component binds it to the
  button only.\<close>

definition blank :: "js_string \<Rightarrow> bool" where
  "blank t = list_all js_whitespace t"

definition blank_ui :: "action \<Rightarrow> bool" where
  "blank_ui a = (case a of Play \<Rightarrow> False | TypeTickers v \<Rightarrow> blank v | _ \<Rightarrow> True)"

section \<open>Example workspaces\<close>

definition start_node :: node where
  "start_node = \<lparr>nid = ''start'', ntype = ''start-node'', ndata = [(''name'', Str ''Start'')], nother = []\<rparr>"

definition agent_node :: node where
  "agent_node = \<lparr>nid = ''A'', ntype = ''agent-node'', ndata = [(''name'', Str ''Agent'')], nother = []\<rparr>"

text \<open>A workspace where agent \<open>A\<close> holds the internal state \<open>{x: 1}\<close> and the context
  \<open>"msg"\<close>, some statuses are left from an earlier run, and the input reads
  \<open>AAPL,,MSFT\<close>.\<close>

definition example_world :: world where
  "example_world =
     \<lparr>graph = [start_node, agent_node],
      statuses = [''start'' \<mapsto> COMPLETE, ''A'' \<mapsto> ERROR],
      nodeContext = [(''A'', Str ''msg'')],
      currentFlowId = None,
      internalStates = [(None, ''A'') \<mapsto> Obj [(''x'', Num 1)]],
      startId = ''start'',
      tickers = utf16 ''AAPL,,MSFT'',
      isProcessing = False,
      abortControllerRef = None,
      streams = [],
      calls = []\<rparr>"

text \<open>A fresh workspace: nothing stored, nothing drawn.\<close>

definition fresh_world :: world where
  "fresh_world =
     \<lparr>graph = [], statuses = Map.empty, nodeContext = [], currentFlowId = None,
      internalStates = Map.empty, startId = ''start'', tickers = [], isProcessing = False,
      abortControllerRef = None, streams = [], calls = []\<rparr>"

text \<open>A graph with a node whose id is the empty string.\<close>

definition anonymous_world :: world where
  "anonymous_world =
     fresh_world\<lparr>graph := [start_node, \<lparr>nid = [], ntype = ''agent-node'', ndata = [], nother = []\<rparr>],
                 tickers := utf16 ''AAPL''\<rparr>"

text \<open>A workspace whose node \<open>A\<close> has no internal state, while its data bucket carries an
  \<open>internal_state\<close> from the record it was loaded from.\<close>

definition stale_world :: world where
  "stale_world =
     fresh_world\<lparr>graph := [\<lparr>nid = ''A'', ntype = ''agent-node'',
                             ndata = [(''internal_state'', Obj [(''x'', Num 1)])], nother = []\<rparr>]\<rparr>"

text \<open>Modelled from the spec: a persistence collaborator that stores and returns records
  faithfully. The base save captures the live graph in a record with an id, the update
  returns the record it was sent, and the base load applies the record's nodes.\<close>

definition faithful :: persistence where
  "faithful =
     \<lparr>base_save = (\<lambda>ns name description.
        Inr (Some \<lparr>fid = 7, fname = (case name of None \<Rightarrow> ''Untitled'' | Some n \<Rightarrow> n),
                   fdescription = description, fnodes = ns, fedges = [], fdata = []\<rparr>)),
      update_flow = (\<lambda>i f. Inr f),
      base_load = (\<lambda>f g. (None, fnodes f))\<rparr>"

text \<open>Collaborators that fail: every call throws.\<close>

definition offline :: persistence where
  "offline =
     \<lparr>base_save = (\<lambda>ns name description. Inl (JsError ''offline'')),
      update_flow = (\<lambda>i f. Inl (JsError ''offline'')),
      base_load = (\<lambda>f g. (Some (JsError ''offline''), g))\<rparr>"

text \<open>The record that saving \<open>example_world\<close> produces with the faithful collaborator, and
  a record with neither internal state nor context.\<close>

definition flow1 :: flow where
  "flow1 =
     \<lparr>fid = 7, fname = ''Untitled'', fdescription = None,
      fnodes = [start_node,
                agent_node\<lparr>ndata := [(''name'', Str ''Agent''), (''internal_state'', Obj [(''x'', Num 1)])]\<rparr>],
      fedges = [],
      fdata = [(''nodeContextData'', Obj [(''A'', Str ''msg'')])]\<rparr>"

definition flow2 :: flow where
  "flow2 =
     \<lparr>fid = 8, fname = ''Other'', fdescription = None, fnodes = [start_node], fedges = [],
      fdata = []\<rparr>"

text \<open>The record the base save of \<open>example_world\<close> yields before the context is patched
  in.\<close>

definition sf1 :: flow where
  "sf1 = flow1\<lparr>fdata := []\<rparr>"

text \<open>Collaborators that fail in part: the update call is rejected; the base save yields
  no flow.\<close>

definition read_only :: persistence where
  "read_only = faithful\<lparr>update_flow := (\<lambda>i f. Inl (JsError ''rejected''))\<rparr>"

definition declining :: persistence where
  "declining = faithful\<lparr>base_save := (\<lambda>ns name description. Inr None)\<rparr>"



section \<open>Splitting and trimming\<close>

lemma js_split_nonempty: "js_split t \<noteq> []"
  by (induction t) (auto split: list.splits)

lemma js_join_Cons: "segs \<noteq> [] \<Longrightarrow> js_join (seg # segs) = seg @ comma # js_join segs"
  by (cases segs) auto

lemma js_join_split: "js_join (js_split t) = t"
proof (induction t)
  case Nil
  then show ?case by simp
next
  case (Cons c cs)
  show ?case
  proof (cases "c = comma")
    case True
    with Cons show ?thesis by (simp add: js_join_Cons js_split_nonempty)
  next
    case False
    obtain seg segs where sp: "js_split cs = seg # segs"
      using js_split_nonempty [of cs] by (cases "js_split cs") auto
    with Cons False show ?thesis by (cases segs) auto
  qed
qed

lemma js_split_no_comma: "seg \<in> set (js_split t) \<Longrightarrow> comma \<notin> set seg"
  by (induction t arbitrary: seg) (auto split: if_splits list.splits)

lemma js_split_length: "length (js_split t) = Suc (count_list t comma)"
  by (induction t) (auto split: list.splits simp: js_split_nonempty)

lemma rev_dropWhile_split:
  "xs = rev (dropWhile P (rev xs)) @ rev (takeWhile P (rev xs))"
proof -
  have "rev (rev xs) = rev (takeWhile P (rev xs) @ dropWhile P (rev xs))"
    by (simp only: takeWhile_dropWhile_id)
  then show ?thesis
    by (simp only: rev_append rev_rev_ident)
qed

lemma js_trim_decomp:
  "seg = takeWhile js_whitespace seg @ js_trim seg @
         rev (takeWhile js_whitespace (rev (dropWhile js_whitespace seg)))"
proof -
  let ?d = "dropWhile js_whitespace seg"
  have "?d = js_trim seg @ rev (takeWhile js_whitespace (rev ?d))"
    unfolding js_trim_def by (rule rev_dropWhile_split)
  moreover have "seg = takeWhile js_whitespace seg @ ?d" by simp
  ultimately show ?thesis by simp
qed

lemma js_trim_hd: "js_trim seg \<noteq> [] \<Longrightarrow> \<not> js_whitespace (hd (js_trim seg))"
proof -
  assume ne: "js_trim seg \<noteq> []"
  let ?d = "dropWhile js_whitespace seg"
  have dne: "?d \<noteq> []" using ne by (cases ?d) (auto simp: js_trim_def)
  have "\<not> js_whitespace (hd ?d)" using dne by (rule hd_dropWhile)
  moreover have "?d = js_trim seg @ rev (takeWhile js_whitespace (rev ?d))"
    unfolding js_trim_def by (rule rev_dropWhile_split)
  then have "hd ?d = hd (js_trim seg)" using ne by (metis hd_append2)
  ultimately show ?thesis by simp
qed

lemma js_trim_last: "js_trim seg \<noteq> [] \<Longrightarrow> \<not> js_whitespace (last (js_trim seg))"
proof -
  assume ne: "js_trim seg \<noteq> []"
  let ?r = "dropWhile js_whitespace (rev (dropWhile js_whitespace seg))"
  have "?r \<noteq> []" using ne by (simp add: js_trim_def)
  then have "\<not> js_whitespace (hd ?r)" by (rule hd_dropWhile)
  moreover have "last (js_trim seg) = hd ?r"
    using \<open>?r \<noteq> []\<close> by (simp add: js_trim_def last_rev)
  ultimately show ?thesis by simp
qed

lemma js_trim_blank: "js_trim t = [] \<longleftrightarrow> blank t"
proof
  assume "js_trim t = []"
  then have all: "\<forall>c\<in>set (dropWhile js_whitespace t). js_whitespace c"
    by (simp add: js_trim_def)
  have "dropWhile js_whitespace t = []"
  proof (rule ccontr)
    assume ne: "dropWhile js_whitespace t \<noteq> []"
    then have "\<not> js_whitespace (hd (dropWhile js_whitespace t))" by (rule hd_dropWhile)
    moreover have "hd (dropWhile js_whitespace t) \<in> set (dropWhile js_whitespace t)"
      using ne by (rule hd_in_set)
    ultimately show False using all by blast
  qed
  then show "blank t" by (simp add: blank_def list_all_iff)
next
  assume "blank t"
  then have d: "dropWhile js_whitespace t = []" by (simp add: blank_def list_all_iff)
  show "js_trim t = []" unfolding js_trim_def d by simp
qed

lemma js_trim_shape:
  "\<exists>pre suf. seg = pre @ js_trim seg @ suf \<and> blank pre \<and> blank suf"
proof (intro exI conjI)
  show "seg = takeWhile js_whitespace seg @ js_trim seg @
         rev (takeWhile js_whitespace (rev (dropWhile js_whitespace seg)))"
    by (rule js_trim_decomp)
  show "blank (takeWhile js_whitespace seg)"
    by (auto simp: blank_def list_all_iff dest: set_takeWhileD)
  show "blank (rev (takeWhile js_whitespace (rev (dropWhile js_whitespace seg))))"
    by (auto simp: blank_def list_all_iff dest: set_takeWhileD)
qed

section \<open>Streams and the held handle\<close>








lemmas handlePlay_defs = handlePlay_def Let_def runHedgeFund_def abort_current_def
  close_stream_def updateNodeStatus_def resetAllStatuses_def setIsProcessing_def

lemma streams_handlePlay:
  "streams (handlePlay s) =
     streams (abort_current s) @
       [\<lparr>request = \<lparr>req_tickers = tickerList (tickers s), selected_agents = selectedAgents (graph s)\<rparr>,
         live = True\<rparr>]"
  by (simp add: handlePlay_defs split: option.splits)


lemma startId_handlePlay: "startId (handlePlay s) = startId s"
  by (simp add: handlePlay_defs split: option.splits)


lemma submitted_handlePlay:
  "submitted (handlePlay s) =
     \<lparr>req_tickers = tickerList (tickers s), selected_agents = selectedAgents (graph s)\<rparr>"
  by (simp add: submitted_def streams_handlePlay)

lemma getStatus_handlePlay:
  "getStatus (handlePlay s) k = (if k = startId s then IN_PROGRESS else IDLE)"
  by (simp add: handlePlay_defs getStatus_def split: option.splits)







lemma startId_step: "startId (step a s) = startId s"
  by (cases a)
    (simp_all add: startId_handlePlay click_play_def handleTickersChange_def abort_current_def
      close_stream_def deliver_def on_event_def updateNodeStatus_def setIsProcessing_def Let_def
      split: option.splits)

lemma startId_exec: "startId (exec as s) = startId s"
  by (induction as arbitrary: s) (simp_all add: startId_step)









lemma click_blank: "blank (tickers s) \<Longrightarrow> click_play s = s"
  by (simp add: click_play_def play_disabled_def js_trim_blank)

lemma blank_ui_step:
  "blank (tickers s) \<Longrightarrow> blank_ui a \<Longrightarrow>
     blank (tickers (step a s)) \<and> length (streams (step a s)) = length (streams s)"
  by (cases a)
    (auto simp: blank_ui_def click_blank handleTickersChange_def abort_current_def close_stream_def
      deliver_def on_event_def updateNodeStatus_def setIsProcessing_def Let_def
      split: option.splits)

lemma blank_ui_exec:
  "blank (tickers s) \<Longrightarrow> list_all blank_ui as \<Longrightarrow> length (streams (exec as s)) = length (streams s)"
proof (induction as arbitrary: s)
  case Nil
  then show ?case by simp
next
  case (Cons a as)
  from Cons.prems have b: "blank (tickers (step a s))"
    and l: "length (streams (step a s)) = length (streams s)"
    using blank_ui_step [of s a] by simp_all
  from Cons.IH [OF b] Cons.prems l show ?case by simp
qed

section \<open>Run Session Manager: the claims\<close>




text \<open>
  Claim C2. Whatever happened to the workspace before, right after \<open>handlePlay\<close> of the
  start node \<open>n\<close> every node id other than \<open>n\<close> reads \<open>IDLE\<close> and \<open>n\<close> reads \<open>IN_PROGRESS\<close>.
\<close>

theorem start_run_resets_statuses:
  "getStatus (handlePlay (exec prior s)) k = (if k = startId s then IN_PROGRESS else IDLE)"
  by (simp add: getStatus_handlePlay startId_exec)

theorem start_run_resets_statuses_witness:
  "getStatus example_world ''start'' = COMPLETE \<and> getStatus example_world ''A'' = ERROR \<and>
   getStatus (handlePlay (exec [] example_world)) ''start'' = IN_PROGRESS \<and>
   getStatus (handlePlay (exec [] example_world)) ''A'' = IDLE"
  using start_run_resets_statuses [of "[]" example_world "''start''"]
    start_run_resets_statuses [of "[]" example_world "''A''"]
  by (simp add: example_world_def getStatus_def)

text \<open>
  Claim C9, as amended. The \<open>selected_agents\<close> submitted when a run is started are the ids
  of the nodes of the graph, in graph order, without those ids that are the empty string
  (\<open>filter(Boolean)\<close> drops them). When no node has an empty id they are the ids of all
  nodes, and the start node's own id is among them whenever it is a non-empty id of the
  graph: neither the start node nor any other node is excluded for what it is.
\<close>

theorem selected_agents_are_the_nonempty_ids:
  "selected_agents (submitted (handlePlay s)) = filter (\<lambda>i. i \<noteq> []) (map nid (graph s)) \<and>
   ((\<forall>n\<in>set (graph s). nid n \<noteq> []) \<longrightarrow>
      selected_agents (submitted (handlePlay s)) = map nid (graph s)) \<and>
   (startId s \<noteq> [] \<and> startId s \<in> nid ` set (graph s) \<longrightarrow>
      startId s \<in> set (selected_agents (submitted (handlePlay s))))"
proof -
  have "(\<forall>n\<in>set (graph s). nid n \<noteq> []) \<Longrightarrow> filter (\<lambda>i. i \<noteq> []) (map nid (graph s)) = map nid (graph s)"
    by (simp add: filter_id_conv)
  then show ?thesis
    by (auto simp: submitted_handlePlay selectedAgents_def)
qed

theorem selected_agents_are_the_nonempty_ids_witness:
  "selected_agents (submitted (handlePlay example_world)) = [''start'', ''A''] \<and>
   map nid (graph example_world) = [''start'', ''A'']"
  using selected_agents_are_the_nonempty_ids [of example_world]
  by (simp add: example_world_def start_node_def agent_node_def)

text \<open>The claim as stated fails for a graph with a node whose id is the empty string: the
  submitted list is shorter than the list of all ids.\<close>

theorem selected_agents_all_ids_counterexample:
  "selected_agents (submitted (handlePlay anonymous_world)) \<noteq> map nid (graph anonymous_world) \<and>
   selected_agents (submitted (handlePlay anonymous_world)) = [''start''] \<and>
   map nid (graph anonymous_world) = [''start'', []]"
  by (simp add: submitted_handlePlay selectedAgents_def anonymous_world_def fresh_world_def
      start_node_def)

text \<open>
  Claim C10. The \<open>tickers\<close> submitted when a run is started are the trimmed segments of the
  input split on commas. Splitting is characterised by: joining the segments with commas
  gives the input back, no segment holds a comma, and there is one segment more than
  there are commas, so empty segments are retained. Trimming removes a prefix and a
  suffix of whitespace and leaves a string that neither starts nor ends with whitespace.
  \<open>"AAPL,,MSFT"\<close> yields \<open>["AAPL", "", "MSFT"]\<close>. When the input is empty or whitespace only
  the button is disabled, a click changes nothing, and no sequence of user-interface
  actions that types only blanks opens a stream; when the input is not blank and no run
  is processing, a click is \<open>handlePlay\<close>.
\<close>

theorem tickers_are_split_on_commas_and_trimmed:
  "req_tickers (submitted (handlePlay s)) = map js_trim (js_split (tickers s)) \<and>
   js_join (js_split t) = t \<and>
   (\<forall>seg\<in>set (js_split t). comma \<notin> set seg) \<and>
   length (js_split t) = Suc (count_list t comma) \<and>
   (\<exists>pre suf. seg = pre @ js_trim seg @ suf \<and> blank pre \<and> blank suf) \<and>
   (js_trim seg \<noteq> [] \<longrightarrow>
      \<not> js_whitespace (hd (js_trim seg)) \<and> \<not> js_whitespace (last (js_trim seg))) \<and>
   tickerList (utf16 ''AAPL,,MSFT'') = [utf16 ''AAPL'', [], utf16 ''MSFT''] \<and>
   (blank (tickers s) \<longrightarrow> play_disabled s \<and> click_play s = s) \<and>
   (blank (tickers s) \<and> list_all blank_ui acts \<longrightarrow>
      length (streams (exec acts s)) = length (streams s)) \<and>
   (\<not> blank (tickers s) \<and> \<not> isProcessing s \<longrightarrow> click_play s = handlePlay s)"
proof -
  have "req_tickers (submitted (handlePlay s)) = map js_trim (js_split (tickers s))"
    by (simp add: submitted_handlePlay tickerList_def)
  moreover have "js_join (js_split t) = t"
    by (rule js_join_split)
  moreover have "\<forall>seg\<in>set (js_split t). comma \<notin> set seg"
    by (blast dest: js_split_no_comma)
  moreover have "length (js_split t) = Suc (count_list t comma)"
    by (rule js_split_length)
  moreover have "\<exists>pre suf. seg = pre @ js_trim seg @ suf \<and> blank pre \<and> blank suf"
    by (rule js_trim_shape)
  moreover have "js_trim seg \<noteq> [] \<longrightarrow>
      \<not> js_whitespace (hd (js_trim seg)) \<and> \<not> js_whitespace (last (js_trim seg))"
    by (simp add: js_trim_hd js_trim_last)
  moreover have "tickerList (utf16 ''AAPL,,MSFT'') = [utf16 ''AAPL'', [], utf16 ''MSFT'']"
    by (simp add: tickerList_def utf16_def js_trim_def js_whitespace_def comma_def)
  moreover have "blank (tickers s) \<longrightarrow> play_disabled s \<and> click_play s = s"
    by (simp add: click_blank play_disabled_def js_trim_blank)
  moreover have "blank (tickers s) \<and> list_all blank_ui acts \<longrightarrow>
      length (streams (exec acts s)) = length (streams s)"
    by (simp add: blank_ui_exec)
  moreover have "\<not> blank (tickers s) \<and> \<not> isProcessing s \<longrightarrow> click_play s = handlePlay s"
    by (simp add: click_play_def play_disabled_def js_trim_blank)
  ultimately show ?thesis by blast
qed

theorem tickers_are_split_on_commas_and_trimmed_witness:
  "req_tickers (submitted (handlePlay example_world)) = [utf16 ''AAPL'', [], utf16 ''MSFT''] \<and>
   js_split (utf16 ''AAPL,,MSFT'') = [utf16 ''AAPL'', [], utf16 ''MSFT''] \<and>
   js_trim (utf16 ''  MSFT '') = utf16 ''MSFT'' \<and>
   blank (utf16 ''   '') \<and>
   click_play (fresh_world\<lparr>tickers := utf16 ''   ''\<rparr>) = fresh_world\<lparr>tickers := utf16 ''   ''\<rparr> \<and>
   length (streams (exec [Click, TypeTickers (utf16 '' ''), Click] (fresh_world\<lparr>tickers := utf16 ''   ''\<rparr>))) = 0 \<and>
   click_play example_world = handlePlay example_world"
proof -
  let ?w = "fresh_world\<lparr>tickers := utf16 ''   ''\<rparr>"
  note thm1 = tickers_are_split_on_commas_and_trimmed
    [of example_world "utf16 ''AAPL,,MSFT''" "utf16 ''  MSFT ''" "[]"]
  note thm2 = tickers_are_split_on_commas_and_trimmed
    [of ?w "[]" "[]" "[Click, TypeTickers (utf16 '' ''), Click]"]
  have b: "blank (utf16 ''   '')" "blank (utf16 '' '')"
    by (simp_all add: blank_def utf16_def js_whitespace_def)
  have t: "tickers ?w = utf16 ''   ''" "streams ?w = []"
    by (simp_all add: fresh_world_def)
  have e: "tickers example_world = utf16 ''AAPL,,MSFT''" "\<not> isProcessing example_world"
    by (simp_all add: example_world_def)
  have nb: "\<not> blank (utf16 ''AAPL,,MSFT'')"
    by (simp add: blank_def utf16_def js_whitespace_def)
  have 1: "req_tickers (submitted (handlePlay example_world)) = [utf16 ''AAPL'', [], utf16 ''MSFT'']"
    using thm1 by (simp add: e tickerList_def)
  have 2: "js_split (utf16 ''AAPL,,MSFT'') = [utf16 ''AAPL'', [], utf16 ''MSFT'']"
    by (simp add: utf16_def comma_def)
  have 3: "js_trim (utf16 ''  MSFT '') = utf16 ''MSFT''"
    by (simp add: utf16_def js_trim_def js_whitespace_def)
  have 4: "click_play ?w = ?w"
    using thm2 b t by simp
  have 5: "length (streams (exec [Click, TypeTickers (utf16 '' ''), Click] ?w)) = 0"
  proof -
    have "blank (tickers ?w) \<and> list_all blank_ui [Click, TypeTickers (utf16 '' ''), Click]"
      by (simp add: b t blank_ui_def)
    with thm2 have "length (streams (exec [Click, TypeTickers (utf16 '' ''), Click] ?w)) =
        length (streams ?w)"
      by blast
    then show ?thesis by (simp only: t list.size)
  qed
  have 6: "click_play example_world = handlePlay example_world"
    using thm1 e nb by simp
  from 1 2 3 b(1) 4 5 6 show ?thesis by simp
qed


section \<open>Saving and loading, step by step\<close>

lemmas prog_defs = ret_def throw_def andThen_def try_catch_def try_finally_def rd_def eff_def

lemma js_prop_update: "js_prop (AList.update k v al) k = v"
  by (simp add: js_prop_def update_conv')

lemma save_unfold:
  "saveCurrentFlowWithCompleteState env name description s =
     (Inr (case base_save env (nodesWithStates s (graph s)) name description of
             Inl e \<Rightarrow> None
           | Inr None \<Rightarrow> None
           | Inr (Some sf) \<Rightarrow>
               (case update_flow env (fid sf) (withContext sf (exportNodeContextData s)) of
                  Inl e \<Rightarrow> None
                | Inr uf \<Rightarrow> Some uf)),
      s\<lparr>calls := calls s @
           [CSetNodes (nodesWithStates s (graph s)), CSaveCurrentFlow] @
           (case base_save env (nodesWithStates s (graph s)) name description of
              Inr (Some sf) \<Rightarrow> [CUpdateFlow (fid sf)] | _ \<Rightarrow> []) @
           [CSetNodes (graph s)]\<rparr>)"
  by (simp add: saveCurrentFlowWithCompleteState_def prog_defs getNodes_def setNodes_def
      saveCurrentFlow_def updateFlow_def exportNodeContextData_def
      split: sum.splits option.splits)

lemma load_unfold:
  "loadFlowWithCompleteState env f s =
     (case base_load env f (graph s) of
        (Some e, g) \<Rightarrow>
          (Inl e, (load_prefix f s)\<lparr>graph := g, calls := calls (load_prefix f s) @ [CLoadFlow (fid f)]\<rparr>)
      | (None, g) \<Rightarrow>
          (Inr (), restoreNodeContext f (restoreInternalStates (fnodes f)
             ((load_prefix f s)\<lparr>graph := g, calls := calls (load_prefix f s) @ [CLoadFlow (fid f)]\<rparr>))))"
  by (simp add: loadFlowWithCompleteState_def prog_defs loadFlow_def load_prefix_def
      resetAllNodes_def clearAllNodeStates_def setNodeStateFlowId_def
      split: prod.splits option.splits)

lemma calls_load_prefix:
  "calls (load_prefix f s) =
     calls s @ [CSetCurrentFlowId (toString (fid f)), CClearAllNodeStates, CResetAllNodes]"
  by (simp add: load_prefix_def resetAllNodes_def clearAllNodeStates_def setNodeStateFlowId_def)

lemma nodeContext_load_prefix: "nodeContext (load_prefix f s) = []"
  by (simp add: load_prefix_def resetAllNodes_def clearAllNodeStates_def setNodeStateFlowId_def)

lemma nodeContext_restoreInternalStates:
  "nodeContext (restoreInternalStates ns s) = nodeContext s"
  by (induction ns arbitrary: s) (simp_all add: setNodeInternalState_def)

lemma calls_restoreInternalStates:
  "calls (restoreInternalStates ns s) =
     calls s @ map (\<lambda>n. CSetNodeInternalState (nid n) (js_prop (ndata n) ''internal_state''))
       (filter (\<lambda>n. truthy (js_prop (ndata n) ''internal_state'')) ns)"
  by (induction ns arbitrary: s) (simp_all add: setNodeInternalState_def)

lemma get_set_internal:
  "getNodeInternalState (setNodeInternalState k' v s) k =
     (if k = k' then v else getNodeInternalState s k)"
  by (simp add: getNodeInternalState_def setNodeInternalState_def)

lemma restore_keeps:
  "\<forall>n\<in>set ns. nid n = k \<longrightarrow> js_prop (ndata n) ''internal_state'' = b \<Longrightarrow>
   getNodeInternalState s k = b \<Longrightarrow>
   getNodeInternalState (restoreInternalStates ns s) k = b"
  by (induction ns arbitrary: s) (simp_all add: get_set_internal)

lemma restore_sets:
  "\<forall>n\<in>set ns. nid n = k \<longrightarrow> js_prop (ndata n) ''internal_state'' = b \<Longrightarrow>
   truthy b \<Longrightarrow> \<exists>n\<in>set ns. nid n = k \<Longrightarrow>
   getNodeInternalState (restoreInternalStates ns s) k = b"
proof (induction ns arbitrary: s)
  case Nil
  then show ?case by simp
next
  case (Cons n ns)
  show ?case
  proof (cases "nid n = k")
    case True
    with Cons.prems have "js_prop (ndata n) ''internal_state'' = b" by simp
    with True Cons.prems show ?thesis
      by (simp add: restore_keeps get_set_internal)
  next
    case False
    with Cons.prems have "\<exists>n\<in>set ns. nid n = k" by auto
    with Cons show ?thesis by simp
  qed
qed

lemma getNodeInternalState_restoreNodeContext:
  "getNodeInternalState (restoreNodeContext f s) k = getNodeInternalState s k"
  by (simp add: restoreNodeContext_def importNodeContextData_def getNodeInternalState_def)

lemma nodeContext_restoreNodeContext:
  "nodeContext (restoreNodeContext f s) =
     (if truthy (js_prop (fdata f) ''nodeContextData'')
      then entries (js_prop (fdata f) ''nodeContextData'') else nodeContext s)"
  by (simp add: restoreNodeContext_def importNodeContextData_def)

lemma calls_restoreNodeContext:
  "calls (restoreNodeContext f s) =
     calls s @ (if truthy (js_prop (fdata f) ''nodeContextData'')
                then [CImportNodeContextData (js_prop (fdata f) ''nodeContextData'')] else [])"
  by (simp add: restoreNodeContext_def importNodeContextData_def)

lemma enhance_has_state:
  "has_state (getNodeInternalState s (nid n)) \<Longrightarrow>
     js_prop (ndata (enhance s n)) ''internal_state'' = getNodeInternalState s (nid n)"
  by (simp add: enhance_def Let_def js_prop_update)

lemma nid_enhance: "nid (enhance s n) = nid n"
  by (simp add: enhance_def Let_def)

lemma example_enhanced:
  "nodesWithStates example_world (graph example_world) = fnodes flow1"
  by (simp add: nodesWithStates_def enhance_def Let_def example_world_def flow1_def
      getNodeInternalState_def has_state_def start_node_def agent_node_def)

lemma example_A_state: "getNodeInternalState example_world ''A'' = Obj [(''x'', Num 1)]"
  by (simp add: getNodeInternalState_def example_world_def)

lemma example_patched: "withContext sf1 (exportNodeContextData example_world) = flow1"
  by (simp add: withContext_def sf1_def flow1_def exportNodeContextData_def example_world_def)

lemma toString_7: "toString 7 = ''7''"
  by code_simp

section \<open>Flow Persistence Coordinator: the claims\<close>

text \<open>
  Claim C3. Let node \<open>A\<close> of the graph hold a non-empty internal-state blob \<open>b\<close> and let the
  Node Context Store map \<open>A\<close> to \<open>p\<close> at save time. Let the persistence collaborator store
  and return records faithfully: the base save captures the live graph in the record it
  yields, the update returns a record with the nodes and the data bucket it was sent, and
  the base load of that record succeeds. Then the save returns the updated record, and
  loading that record into any workspace, a fresh one included, succeeds and leaves
  node \<open>A\<close>'s internal state equal to \<open>b\<close> and the Node Context Store entry \<open>A \<mapsto> p\<close>.
\<close>

theorem save_then_load_restores_state_and_context:
  assumes node: "a \<in> set (graph s)"
    and blob: "has_state (getNodeInternalState s (nid a))"
    and ctx: "map_of (nodeContext s) (nid a) = Some p"
    and saved: "base_save env (nodesWithStates s (graph s)) name description = Inr (Some sf)"
      "fnodes sf = nodesWithStates s (graph s)"
    and updated: "update_flow env (fid sf) (withContext sf (exportNodeContextData s)) = Inr uf"
      "fnodes uf = fnodes sf" "fdata uf = fdata (withContext sf (exportNodeContextData s))"
    and loaded: "fst (base_load env uf (graph t)) = None"
  shows "fst (saveCurrentFlowWithCompleteState env name description s) = Inr (Some uf) \<and>
         fst (loadFlowWithCompleteState env uf t) = Inr () \<and>
         getNodeInternalState (snd (loadFlowWithCompleteState env uf t)) (nid a) =
           getNodeInternalState s (nid a) \<and>
         map_of (nodeContext (snd (loadFlowWithCompleteState env uf t))) (nid a) = Some p"
proof -
  let ?b = "getNodeInternalState s (nid a)"
  obtain g where bl: "base_load env uf (graph t) = (None, g)"
    using loaded by (cases "base_load env uf (graph t)") auto
  let ?t4 = "(load_prefix uf t)\<lparr>graph := g, calls := calls (load_prefix uf t) @ [CLoadFlow (fid uf)]\<rparr>"
  have ld: "loadFlowWithCompleteState env uf t =
      (Inr (), restoreNodeContext uf (restoreInternalStates (fnodes uf) ?t4))"
    by (simp add: load_unfold bl)
  have nodes: "fnodes uf = map (enhance s) (graph s)"
    using saved(2) updated(2) by (simp add: nodesWithStates_def)
  have all: "\<forall>n\<in>set (fnodes uf). nid n = nid a \<longrightarrow> js_prop (ndata n) ''internal_state'' = ?b"
    using blob by (auto simp: nodes nid_enhance enhance_has_state)
  have ex: "\<exists>n\<in>set (fnodes uf). nid n = nid a"
    using node by (auto simp: nodes nid_enhance intro!: bexI [of _ a])
  have tr: "truthy ?b"
    using blob by (simp add: has_state_def)
  have st: "getNodeInternalState (restoreInternalStates (fnodes uf) ?t4) (nid a) = ?b"
    using all tr ex by (rule restore_sets)
  have cd: "js_prop (fdata uf) ''nodeContextData'' = Obj (nodeContext s)"
    by (simp add: updated(3) withContext_def js_prop_update exportNodeContextData_def)
  have 1: "fst (saveCurrentFlowWithCompleteState env name description s) = Inr (Some uf)"
    by (simp add: save_unfold saved(1) updated(1))
  have 2: "fst (loadFlowWithCompleteState env uf t) = Inr ()"
    by (simp add: ld)
  have 3: "getNodeInternalState (snd (loadFlowWithCompleteState env uf t)) (nid a) = ?b"
    by (simp add: ld getNodeInternalState_restoreNodeContext st)
  have 4: "map_of (nodeContext (snd (loadFlowWithCompleteState env uf t))) (nid a) = Some p"
    by (simp add: ld nodeContext_restoreNodeContext cd ctx)
  from 1 2 3 4 show ?thesis by simp
qed

text \<open>The round trip of the spec: blob \<open>{x: 1}\<close> and context \<open>"msg"\<close> for node \<open>A\<close>.\<close>

theorem save_then_load_restores_state_and_context_witness:
  "fst (saveCurrentFlowWithCompleteState faithful None None example_world) = Inr (Some flow1) \<and>
   fst (loadFlowWithCompleteState faithful flow1 fresh_world) = Inr () \<and>
   getNodeInternalState (snd (loadFlowWithCompleteState faithful flow1 fresh_world)) ''A'' =
     Obj [(''x'', Num 1)] \<and>
   map_of (nodeContext (snd (loadFlowWithCompleteState faithful flow1 fresh_world))) ''A'' =
     Some (Str ''msg'')"
proof -
  have a: "agent_node \<in> set (graph example_world)" "nid agent_node = ''A''"
    by (simp_all add: example_world_def agent_node_def)
  have b: "has_state (getNodeInternalState example_world (nid agent_node))"
    by (simp add: a example_A_state has_state_def)
  have c: "map_of (nodeContext example_world) (nid agent_node) = Some (Str ''msg'')"
    by (simp add: a example_world_def)
  have sv: "base_save faithful (nodesWithStates example_world (graph example_world)) None None =
      Inr (Some sf1)"
    by (simp add: faithful_def sf1_def example_enhanced) (simp add: flow1_def)
  note wc = example_patched
  have up: "update_flow faithful (fid sf1) (withContext sf1 (exportNodeContextData example_world)) =
      Inr flow1"
    by (simp add: faithful_def wc)
  have ld: "fst (base_load faithful flow1 (graph fresh_world)) = None"
    by (simp add: faithful_def)
  have f1: "fnodes sf1 = nodesWithStates example_world (graph example_world)"
    by (simp add: sf1_def example_enhanced)
  have f2: "fnodes flow1 = fnodes sf1"
    by (simp add: sf1_def example_enhanced)
  have f3: "fdata flow1 = fdata (withContext sf1 (exportNodeContextData example_world))"
    by (simp only: wc)
  from save_then_load_restores_state_and_context [OF a(1) b c sv f1 up f2 f3 ld]
  show ?thesis
    by (simp add: a example_A_state)
qed

text \<open>
  Claim C4, as amended. For a node whose internal-state blob is absent or empty the
  enhanced node list holds the node itself, unchanged: its data bucket has an
  \<open>internal_state\<close> key only if the node's data bucket had one already, and none if it
  had none. For a node whose blob is non-empty the data bucket holds the blob under
  \<open>internal_state\<close>. No other key of a data bucket differs, and a key differs only when
  the blob is non-empty. The list is the one that the save applies to the live graph.
\<close>

theorem internal_state_is_attached_only_when_nonempty:
  "length (nodesWithStates s ns) = length ns \<and>
   (i < length ns \<and> \<not> has_state (getNodeInternalState s (nid (ns ! i))) \<longrightarrow>
      nodesWithStates s ns ! i = ns ! i) \<and>
   (i < length ns \<and> \<not> has_state (getNodeInternalState s (nid (ns ! i))) \<and>
    map_of (ndata (ns ! i)) ''internal_state'' = None \<longrightarrow>
      map_of (ndata (nodesWithStates s ns ! i)) ''internal_state'' = None) \<and>
   (i < length ns \<and> has_state (getNodeInternalState s (nid (ns ! i))) \<longrightarrow>
      map_of (ndata (nodesWithStates s ns ! i)) ''internal_state'' =
        Some (getNodeInternalState s (nid (ns ! i)))) \<and>
   (i < length ns \<and> map_of (ndata (nodesWithStates s ns ! i)) k \<noteq> map_of (ndata (ns ! i)) k \<longrightarrow>
      k = ''internal_state'' \<and> has_state (getNodeInternalState s (nid (ns ! i)))) \<and>
   calls (snd (saveCurrentFlowWithCompleteState env name description s)) ! length (calls s) =
     CSetNodes (nodesWithStates s (graph s))"
  by (auto simp: nodesWithStates_def enhance_def Let_def update_conv' save_unfold
      split: if_splits)

theorem internal_state_is_attached_only_when_nonempty_witness:
  "nodesWithStates example_world (graph example_world) ! 0 = start_node \<and>
   map_of (ndata (nodesWithStates example_world (graph example_world) ! 0)) ''internal_state'' = None \<and>
   map_of (ndata (nodesWithStates example_world (graph example_world) ! 1)) ''internal_state'' =
     Some (Obj [(''x'', Num 1)])"
proof -
  have g: "graph example_world = [start_node, agent_node]"
    by (simp add: example_world_def)
  have st: "getNodeInternalState example_world (nid start_node) = Undefined"
    "getNodeInternalState example_world (nid agent_node) = Obj [(''x'', Num 1)]"
    by (simp_all add: getNodeInternalState_def example_world_def start_node_def agent_node_def)
  have none: "map_of (ndata start_node) ''internal_state'' = None"
    by (simp add: start_node_def)
  show ?thesis
    using internal_state_is_attached_only_when_nonempty [of example_world "graph example_world" 0]
      internal_state_is_attached_only_when_nonempty [of example_world "graph example_world" 1]
    by (simp add: g st none has_state_def)
qed

text \<open>The claim as stated fails for a node that has no internal state while its data
  bucket carries an \<open>internal_state\<close> key, as the nodes of a loaded record do: the spread
  keeps the key.\<close>

theorem no_internal_state_key_counterexample:
  "\<not> has_state (getNodeInternalState stale_world ''A'') \<and>
   getNodeInternalState stale_world ''A'' = Undefined \<and>
   map nid (graph stale_world) = [''A''] \<and>
   map_of (ndata (nodesWithStates stale_world (graph stale_world) ! 0)) ''internal_state'' =
     Some (Obj [(''x'', Num 1)])"
  by (simp add: stale_world_def fresh_world_def getNodeInternalState_def has_state_def
      nodesWithStates_def enhance_def Let_def)

text \<open>
  Claim C5. Whatever the collaborators answer (a saved and updated flow, no flow, or a
  thrown error from the base save or from the update), the save leaves the live graph
  as it was captured at its start. Of the workspace only the call log differs: the
  enhanced list was applied, the base save ran on it, the update ran if there was a
  flow, and the last call put the captured list back.
\<close>

theorem save_restores_the_live_graph:
  "graph (snd (saveCurrentFlowWithCompleteState env name description s)) = graph s \<and>
   snd (saveCurrentFlowWithCompleteState env name description s) =
     s\<lparr>calls := calls s @
          [CSetNodes (nodesWithStates s (graph s)), CSaveCurrentFlow] @
          (case base_save env (nodesWithStates s (graph s)) name description of
             Inr (Some sf) \<Rightarrow> [CUpdateFlow (fid sf)] | _ \<Rightarrow> []) @
          [CSetNodes (graph s)]\<rparr> \<and>
   last (calls (snd (saveCurrentFlowWithCompleteState env name description s))) =
     CSetNodes (graph s)"
  by (simp add: save_unfold)

theorem save_restores_the_live_graph_witness:
  "nodesWithStates example_world (graph example_world) \<noteq> graph example_world \<and>
   graph (snd (saveCurrentFlowWithCompleteState faithful None None example_world)) =
     [start_node, agent_node] \<and>
   graph (snd (saveCurrentFlowWithCompleteState declining None None example_world)) =
     [start_node, agent_node] \<and>
   graph (snd (saveCurrentFlowWithCompleteState offline None None example_world)) =
     [start_node, agent_node] \<and>
   graph (snd (saveCurrentFlowWithCompleteState read_only None None example_world)) =
     [start_node, agent_node]"
  using save_restores_the_live_graph [of faithful None None example_world]
    save_restores_the_live_graph [of declining None None example_world]
    save_restores_the_live_graph [of offline None None example_world]
    save_restores_the_live_graph [of read_only None None example_world]
  by (simp add: example_enhanced flow1_def)
    (simp add: example_world_def agent_node_def start_node_def)

text \<open>
  Claim C6. The save never throws. It returns \<open>null\<close> when the base save throws or yields
  no flow and when the update call throws; otherwise it returns the collaborator's
  answer to the update of the saved flow, and the record sent in that update is the saved
  flow with the exported node-context mapping under \<open>nodeContextData\<close> of its data bucket.
  The handler of the outer \<open>try\<close> answers every error with \<open>null\<close>: whatever block \<open>m\<close> it
  guards, nothing is thrown, and \<open>null\<close> is returned when \<open>m\<close> throws.
\<close>

theorem save_returns_null_on_failure_and_never_throws:
  "fst (saveCurrentFlowWithCompleteState env name description s) =
     Inr (case base_save env (nodesWithStates s (graph s)) name description of
            Inl e \<Rightarrow> None
          | Inr None \<Rightarrow> None
          | Inr (Some sf) \<Rightarrow>
              (case update_flow env (fid sf) (withContext sf (exportNodeContextData s)) of
                 Inl e \<Rightarrow> None
               | Inr uf \<Rightarrow> Some uf)) \<and>
   fst (saveCurrentFlowWithCompleteState env name description s) \<noteq> Inl e \<and>
   js_prop (fdata (withContext sf (exportNodeContextData s))) ''nodeContextData'' =
     Obj (exportNodeContextData s) \<and>
   fid (withContext sf (exportNodeContextData s)) = fid sf \<and>
   fnodes (withContext sf (exportNodeContextData s)) = fnodes sf \<and>
   fst (try_catch m (\<lambda>err. ret None) s) \<noteq> Inl e \<and>
   (fst (m s) = Inl e \<longrightarrow> fst (try_catch m (\<lambda>err. ret None) s) = Inr None)"
  by (auto simp: save_unfold withContext_def js_prop_update try_catch_def ret_def
      split: prod.splits sum.splits)

theorem save_returns_null_on_failure_and_never_throws_witness:
  "fst (saveCurrentFlowWithCompleteState offline None None example_world) = Inr None \<and>
   fst (saveCurrentFlowWithCompleteState declining None None example_world) = Inr None \<and>
   fst (saveCurrentFlowWithCompleteState read_only None None example_world) = Inr None \<and>
   fst (saveCurrentFlowWithCompleteState faithful None None example_world) = Inr (Some flow1) \<and>
   js_prop (fdata flow1) ''nodeContextData'' = Obj (exportNodeContextData example_world)"
proof -
  let ?ns = "nodesWithStates example_world (graph example_world)"
  let ?ctx = "exportNodeContextData example_world"
  note wc = example_patched
  have o: "base_save offline ?ns None None = Inl (JsError ''offline'')"
    by (simp add: offline_def)
  have d: "base_save declining ?ns None None = Inr None"
    by (simp add: declining_def)
  have sv: "base_save faithful ?ns None None = Inr (Some sf1)"
    by (simp add: faithful_def sf1_def example_enhanced) (simp add: flow1_def)
  have r: "base_save read_only ?ns None None = Inr (Some sf1)"
    "update_flow read_only (fid sf1) (withContext sf1 ?ctx) = Inl (JsError ''rejected'')"
    using sv by (simp_all add: read_only_def)
  have f: "base_save faithful ?ns None None = Inr (Some sf1)"
    "update_flow faithful (fid sf1) (withContext sf1 ?ctx) = Inr flow1"
    using sv by (simp_all add: wc) (simp add: faithful_def)
  have 1: "fst (saveCurrentFlowWithCompleteState offline None None example_world) = Inr None"
    using save_returns_null_on_failure_and_never_throws
      [where env = offline and name = None and description = None and s = example_world
         and e = "JsError ''offline''" and sf = sf1 and m = "throw (JsError ''offline'')"]
    unfolding o sum.case by blast
  have 2: "fst (saveCurrentFlowWithCompleteState declining None None example_world) = Inr None"
    using save_returns_null_on_failure_and_never_throws
      [where env = declining and name = None and description = None and s = example_world
         and e = "JsError ''offline''" and sf = sf1 and m = "throw (JsError ''offline'')"]
    unfolding d sum.case option.case by blast
  have 3: "fst (saveCurrentFlowWithCompleteState read_only None None example_world) = Inr None"
    using save_returns_null_on_failure_and_never_throws
      [where env = read_only and name = None and description = None and s = example_world
         and e = "JsError ''offline''" and sf = sf1 and m = "throw (JsError ''offline'')"]
    unfolding r sum.case option.case by blast
  have 4: "fst (saveCurrentFlowWithCompleteState faithful None None example_world) = Inr (Some flow1)"
    using save_returns_null_on_failure_and_never_throws
      [where env = faithful and name = None and description = None and s = example_world
         and e = "JsError ''offline''" and sf = sf1 and m = "throw (JsError ''offline'')"]
    unfolding f sum.case option.case by blast
  have 5: "js_prop (fdata flow1) ''nodeContextData'' = Obj ?ctx"
    using save_returns_null_on_failure_and_never_throws
      [where env = faithful and name = None and description = None and s = example_world
         and e = "JsError ''offline''" and sf = sf1 and m = "throw (JsError ''offline'')"]
    unfolding wc by blast
  from 1 2 3 4 5 show ?thesis by simp
qed

text \<open>
  Claim C7. When the base load throws, \<open>loadFlowWithCompleteState\<close> throws the same error;
  when it does not, the load returns normally. The handler of its \<open>try\<close> throws again
  whatever error the guarded block \<open>m\<close> throws. The save, in contrast, answers a thrown
  error by returning \<open>null\<close>.
\<close>

theorem load_rethrows_errors:
  "(fst (base_load env f (graph s)) = Some e \<longrightarrow>
      fst (loadFlowWithCompleteState env f s) = Inl e) \<and>
   (fst (base_load env f (graph s)) = None \<longrightarrow>
      fst (loadFlowWithCompleteState env f s) = Inr ()) \<and>
   (fst (m s) = Inl e \<longrightarrow> fst (try_catch m (\<lambda>error. throw error) s) = Inl e) \<and>
   (base_save env (nodesWithStates s (graph s)) name description = Inl e \<longrightarrow>
      fst (saveCurrentFlowWithCompleteState env name description s) = Inr None)"
  by (auto simp: load_unfold save_unfold try_catch_def throw_def
      split: prod.splits option.splits sum.splits)

theorem load_rethrows_errors_witness:
  "fst (loadFlowWithCompleteState offline flow1 fresh_world) = Inl (JsError ''offline'') \<and>
   fst (loadFlowWithCompleteState faithful flow1 fresh_world) = Inr () \<and>
   fst (saveCurrentFlowWithCompleteState offline None None fresh_world) = Inr None"
proof -
  have bl: "fst (base_load offline flow1 (graph fresh_world)) = Some (JsError ''offline'')"
    "fst (base_load faithful flow1 (graph fresh_world)) = None"
    "base_save offline (nodesWithStates fresh_world (graph fresh_world)) None None =
       Inl (JsError ''offline'')"
    by (simp_all add: offline_def faithful_def)
  show ?thesis
    using bl load_rethrows_errors
      [where env = offline and f = flow1 and s = fresh_world and e = "JsError ''offline''"
         and name = None and description = None and m = "throw (JsError ''offline'')"]
      load_rethrows_errors
      [where env = faithful and f = flow1 and s = fresh_world and e = "JsError ''offline''"
         and name = None and description = None and m = "throw (JsError ''offline'')"]
    by blast
qed

text \<open>
  Claim C8. For every flow the load calls, in this order: set the flow-scope identity,
  clear all per-node internal state, reset the Node Context Store, apply the flow's graph
  by the base load, and then, when the base load did not throw, restore the internal
  state of each node that carries one, in node order, and import the node-context
  mapping if the flow carries one. Hence loading a flow without persisted context after
  any other flow leaves the Node Context Store empty.
\<close>

theorem load_steps_run_in_order:
  "calls (snd (loadFlowWithCompleteState env f s)) =
     calls s @
     [CSetCurrentFlowId (toString (fid f)), CClearAllNodeStates, CResetAllNodes, CLoadFlow (fid f)] @
     (if fst (base_load env f (graph s)) = None then restore_calls f else []) \<and>
   (\<not> truthy (js_prop (fdata f2) ''nodeContextData'') \<longrightarrow>
      nodeContext (snd (loadFlowWithCompleteState env f2 (snd (loadFlowWithCompleteState env f1 s)))) = [])"
  by (auto simp: load_unfold calls_load_prefix nodeContext_load_prefix restore_calls_def
      calls_restoreNodeContext calls_restoreInternalStates nodeContext_restoreNodeContext
      nodeContext_restoreInternalStates
      split: prod.splits option.splits)

text \<open>Flow switch isolation as in the spec: after flow 1 the store holds \<open>A \<mapsto> "msg"\<close>,
  after flow 2 it is empty. When the base load throws, the run of calls ends with it.\<close>

theorem load_steps_run_in_order_witness:
  "calls (snd (loadFlowWithCompleteState faithful flow1 fresh_world)) =
     [CSetCurrentFlowId ''7'', CClearAllNodeStates, CResetAllNodes, CLoadFlow 7,
      CSetNodeInternalState ''A'' (Obj [(''x'', Num 1)]),
      CImportNodeContextData (Obj [(''A'', Str ''msg'')])] \<and>
   calls (snd (loadFlowWithCompleteState offline flow1 fresh_world)) =
     [CSetCurrentFlowId ''7'', CClearAllNodeStates, CResetAllNodes, CLoadFlow 7] \<and>
   nodeContext (snd (loadFlowWithCompleteState faithful flow1 fresh_world)) = [(''A'', Str ''msg'')] \<and>
   nodeContext (snd (loadFlowWithCompleteState faithful flow2
     (snd (loadFlowWithCompleteState faithful flow1 fresh_world)))) = []"
proof -
  have rc: "restore_calls flow1 =
      [CSetNodeInternalState ''A'' (Obj [(''x'', Num 1)]),
       CImportNodeContextData (Obj [(''A'', Str ''msg'')])]"
    by (simp add: restore_calls_def flow1_def js_prop_def start_node_def agent_node_def)
  have bl: "fst (base_load faithful flow1 (graph fresh_world)) = None"
    "fst (base_load offline flow1 (graph fresh_world)) \<noteq> None"
    by (simp_all add: faithful_def offline_def)
  have fw: "calls fresh_world = []" "fid flow1 = 7"
    by (simp_all add: fresh_world_def flow1_def)
  have nc2: "\<not> truthy (js_prop (fdata flow2) ''nodeContextData'')"
    by (simp add: flow2_def js_prop_def)
  have 1: "calls (snd (loadFlowWithCompleteState faithful flow1 fresh_world)) =
     [CSetCurrentFlowId ''7'', CClearAllNodeStates, CResetAllNodes, CLoadFlow 7,
      CSetNodeInternalState ''A'' (Obj [(''x'', Num 1)]),
      CImportNodeContextData (Obj [(''A'', Str ''msg'')])]"
    using load_steps_run_in_order [of faithful flow1 fresh_world]
    by (simp add: bl fw rc toString_7)
  have 2: "calls (snd (loadFlowWithCompleteState offline flow1 fresh_world)) =
     [CSetCurrentFlowId ''7'', CClearAllNodeStates, CResetAllNodes, CLoadFlow 7]"
    using load_steps_run_in_order [of offline flow1 fresh_world]
    by (simp add: bl fw toString_7)
  have 3: "nodeContext (snd (loadFlowWithCompleteState faithful flow1 fresh_world)) =
      [(''A'', Str ''msg'')]"
    by (simp add: load_unfold faithful_def nodeContext_restoreNodeContext)
      (simp add: flow1_def js_prop_def)
  have 4: "nodeContext (snd (loadFlowWithCompleteState faithful flow2
     (snd (loadFlowWithCompleteState faithful flow1 fresh_world)))) = []"
    using load_steps_run_in_order [of faithful flow1 fresh_world flow2 flow1] nc2
    by blast
  from 1 2 3 4 show ?thesis by simp
qed

end
